theory Spec2Isabelle
  imports Main "HOL-Library.Sublist"
begin

section \<open>The library manager of \<^verbatim>\<open>library_manager.py\<close>\<close>

text \<open>
  The program keeps a catalogue of books in a text file, one JSON object per line.
  Every operation of \<^verbatim>\<open>LibraryManager\<close> opens the file, reads or writes it and
  closes it again, so the state of the program between two operations is the file alone.
  The model passes that state explicitly: an operation takes the file and returns the
  file it leaves behind together with the message it prints, or the exception it raises.
\<close>

subsection \<open>Strings\<close>

text \<open>
  A Python \<^verbatim>\<open>str\<close> is a sequence of Unicode code points. The status literals of the
  source are Cyrillic, so a string is a list of code points, not of bytes.
\<close>

type_synonym pystr = "nat list"

definition ascii :: "string \<Rightarrow> pystr" where
  "ascii s = map of_char s"

text \<open>
  \<^verbatim>\<open>str.lower()\<close>, given here for the code points of Basic Latin, Latin-1 Supplement
  and the Cyrillic range U+0400 to U+045F, where it maps one code point to one code point
  and does not depend on the context. Code points outside these ranges are left as they
  are; the model speaks for strings inside them.
\<close>

definition lower_cp :: "nat \<Rightarrow> nat" where
  "lower_cp c =
     (if 65 \<le> c \<and> c \<le> 90 then c + 32
      else if 192 \<le> c \<and> c \<le> 222 \<and> c \<noteq> 215 then c + 32
      else if 1024 \<le> c \<and> c \<le> 1039 then c + 80
      else if 1040 \<le> c \<and> c \<le> 1071 then c + 32
      else c)"

definition lower :: "pystr \<Rightarrow> pystr" where
  "lower s = map lower_cp s"

text \<open>
  \<^verbatim>\<open>str.isdigit()\<close>: the string is not empty and each character is a digit. In the
  ranges above the digits are \<^verbatim>\<open>0\<close> to \<^verbatim>\<open>9\<close> and the superscripts U+00B2, U+00B3
  and U+00B9.
\<close>

definition is_decimal_cp :: "nat \<Rightarrow> bool" where
  "is_decimal_cp c = (48 \<le> c \<and> c \<le> 57)"

definition is_digit_cp :: "nat \<Rightarrow> bool" where
  "is_digit_cp c = (is_decimal_cp c \<or> c = 178 \<or> c = 179 \<or> c = 185)"

definition isdigit :: "pystr \<Rightarrow> bool" where
  "isdigit s = (s \<noteq> [] \<and> list_all is_digit_cp s)"

datatype error =
    JSONDecodeError
  | KeyError pystr
  | TypeError
  | ValueError
  | IllTypedField pystr

text \<open>
  \<^verbatim>\<open>int(s)\<close> in base ten. It reads decimal digits only: a superscript digit raises
  \<^verbatim>\<open>ValueError\<close>. \<^verbatim>\<open>int\<close> also accepts a sign, surrounding white space and
  underscores between digits; \<^verbatim>\<open>find_books\<close> calls it behind \<^verbatim>\<open>isdigit()\<close> only, and
  no such string passes that test. The interpreter's limit on the number of digits is
  not modelled.
\<close>

definition decimal_value :: "pystr \<Rightarrow> nat" where
  "decimal_value s = foldl (\<lambda>a c. 10 * a + (c - 48)) 0 s"

definition py_int :: "pystr \<Rightarrow> error + int" where
  "py_int s =
     (if s \<noteq> [] \<and> list_all is_decimal_cp s then Inr (int (decimal_value s))
      else Inl ValueError)"

text \<open>\<^verbatim>\<open>str(n)\<close> for an integer: the decimal digits, after a minus sign when negative.\<close>

fun digits_of :: "nat \<Rightarrow> pystr" where
  "digits_of n = (if n < 10 then [48 + n] else digits_of (n div 10) @ [48 + n mod 10])"

definition py_str :: "int \<Rightarrow> pystr" where
  "py_str i = (if i < 0 then 45 # digits_of (nat (- i)) else digits_of (nat i))"

text \<open>\<^verbatim>\<open>needle in hay\<close> on strings: \<open>needle\<close> occurs in \<open>hay\<close> as a contiguous run.\<close>

fun startswith :: "pystr \<Rightarrow> pystr \<Rightarrow> bool" where
  "startswith hay [] = True"
| "startswith [] (n # ns) = False"
| "startswith (h # hs) (n # ns) = (h = n \<and> startswith hs ns)"

fun contains :: "pystr \<Rightarrow> pystr \<Rightarrow> bool" where
  "contains [] needle = startswith [] needle"
| "contains (h # hs) needle = (startswith (h # hs) needle \<or> contains hs needle)"

subsection \<open>The \<^verbatim>\<open>json\<close> module\<close>

text \<open>
  The values \<^verbatim>\<open>json.loads\<close> returns. A Python \<^verbatim>\<open>dict\<close> is an association list in
  insertion order. Floating point numbers are left out.
\<close>

datatype json =
    JNull
  | JBool bool
  | JInt int
  | JStr pystr
  | JList "json list"
  | JDict "(pystr \<times> json) list"

text \<open>
  \<^verbatim>\<open>json.loads\<close> and \<^verbatim>\<open>json.dumps\<close> belong to the standard library, not to the
  program: they are parameters of the model. \<open>loads J s = None\<close> stands for
  \<^verbatim>\<open>JSONDecodeError\<close>; \<open>dumps J\<close> is \<^verbatim>\<open>json.dumps(_, ensure_ascii=False)\<close>.
\<close>

record json_module =
  loads :: "pystr \<Rightarrow> json option"
  dumps :: "json \<Rightarrow> pystr"

subsection \<open>\<^verbatim>\<open>class Book\<close>\<close>

record Book =
  book_id :: int
  title :: pystr
  author :: pystr
  year :: int
  status :: pystr

definition status_available :: pystr where
  "status_available = [1074, 32, 1085, 1072, 1083, 1080, 1095, 1080, 1080]"

definition status_loaned :: pystr where
  "status_loaned = [1074, 1099, 1076, 1072, 1085, 1072]"

definition to_dict :: "Book \<Rightarrow> json" where
  "to_dict b = JDict
     [(ascii ''id'', JInt (book_id b)),
      (ascii ''title'', JStr (title b)),
      (ascii ''author'', JStr (author b)),
      (ascii ''year'', JInt (year b)),
      (ascii ''status'', JStr (status b))]"

text \<open>
  \<^verbatim>\<open>data[key]\<close>: a missing key raises \<^verbatim>\<open>KeyError\<close>; subscripting a value that is not
  a dict with a string raises \<^verbatim>\<open>TypeError\<close>.
\<close>

fun getitem :: "json \<Rightarrow> pystr \<Rightarrow> error + json" where
  "getitem (JDict d) k = (case map_of d k of None \<Rightarrow> Inl (KeyError k) | Some v \<Rightarrow> Inr v)"
| "getitem _ k = Inl TypeError"

text \<open>
  Python stores whatever value the dict holds in the attribute. The dataclass declares
  \<^verbatim>\<open>id: int\<close>, \<^verbatim>\<open>title: str\<close>, \<^verbatim>\<open>author: str\<close>, \<^verbatim>\<open>year: int\<close> and
  \<^verbatim>\<open>status: str\<close>, and the record \<open>Book\<close> holds books of these types only: a value
  of another type ends the model with \<open>IllTypedField\<close>, after the five look-ups that
  Python performs.
\<close>

fun as_int :: "pystr \<Rightarrow> json \<Rightarrow> error + int" where
  "as_int k (JInt i) = Inr i"
| "as_int k _ = Inl (IllTypedField k)"

fun as_str :: "pystr \<Rightarrow> json \<Rightarrow> error + pystr" where
  "as_str k (JStr s) = Inr s"
| "as_str k _ = Inl (IllTypedField k)"

definition and_then :: "error + 'a \<Rightarrow> ('a \<Rightarrow> error + 'b) \<Rightarrow> error + 'b" where
  "and_then r f = (case r of Inl e \<Rightarrow> Inl e | Inr v \<Rightarrow> f v)"

definition from_dict :: "json \<Rightarrow> error + Book" where
  "from_dict data =
     and_then (getitem data (ascii ''id'')) (\<lambda>i.
     and_then (getitem data (ascii ''title'')) (\<lambda>t.
     and_then (getitem data (ascii ''author'')) (\<lambda>a.
     and_then (getitem data (ascii ''year'')) (\<lambda>y.
     and_then (getitem data (ascii ''status'')) (\<lambda>s.
     and_then (as_int (ascii ''id'') i) (\<lambda>i'.
     and_then (as_str (ascii ''title'') t) (\<lambda>t'.
     and_then (as_str (ascii ''author'') a) (\<lambda>a'.
     and_then (as_int (ascii ''year'') y) (\<lambda>y'.
     and_then (as_str (ascii ''status'') s) (\<lambda>s'.
       Inr \<lparr>book_id = i', title = t', author = a', year = y', status = s'\<rparr>))))))))))"

text \<open>What the program prints, one constructor for each \<^verbatim>\<open>print\<close> of the class methods.\<close>

datatype message =
    InvalidStatus
  | StatusChanged pystr pystr
  | BookAdded pystr
  | DeleteNotFound int
  | BookDeleted int
  | StatusNotFound int


subsection \<open>The file\<close>

text \<open>
  The backing file as Python's text layer shows it: \<open>None\<close> when it does not exist,
  otherwise its text, with every line ending read as the code point 10.
\<close>

type_synonym data_file = "pystr option"

text \<open>
  Iterating over an open file yields its lines, each with its newline; the last line
  has none when the text does not end in one.
\<close>

fun file_lines :: "pystr \<Rightarrow> pystr list" where
  "file_lines [] = []"
| "file_lines (c # cs) =
     (if c = 10 then [c] # file_lines cs
      else (case file_lines cs of [] \<Rightarrow> [[c]] | l # ls \<Rightarrow> (c # l) # ls))"

subsection \<open>\<^verbatim>\<open>class LibraryManager\<close>\<close>

text \<open>
  \<^verbatim>\<open>_load_books\<close>: \<open>parse_line\<close> is the body of its loop,
  \<^verbatim>\<open>Book.from_dict(json.loads(line))\<close>, and \<open>load_lines\<close> the loop; the first
  exception ends it and no list is returned. A missing file (\<^verbatim>\<open>FileNotFoundError\<close>)
  gives the empty list. \<^verbatim>\<open>_save_books\<close> opens the file for writing, which empties or
  creates it, and writes one line for each book.
\<close>

definition parse_line :: "json_module \<Rightarrow> pystr \<Rightarrow> error + Book" where
  "parse_line J l = (case loads J l of None \<Rightarrow> Inl JSONDecodeError | Some data \<Rightarrow> from_dict data)"

fun load_lines :: "json_module \<Rightarrow> pystr list \<Rightarrow> error + Book list" where
  "load_lines J [] = Inr []"
| "load_lines J (l # ls) =
     and_then (parse_line J l) (\<lambda>b. and_then (load_lines J ls) (\<lambda>bs. Inr (b # bs)))"

definition load_books :: "json_module \<Rightarrow> data_file \<Rightarrow> error + Book list" where
  "load_books J f = (case f of None \<Rightarrow> Inr [] | Some content \<Rightarrow> load_lines J (file_lines content))"

definition record_line :: "json_module \<Rightarrow> Book \<Rightarrow> pystr" where
  "record_line J b = dumps J (to_dict b) @ [10]"

definition save_books :: "json_module \<Rightarrow> Book list \<Rightarrow> data_file" where
  "save_books J books = Some (concat (map (record_line J) books))"

text \<open>
  The loop of \<^verbatim>\<open>_generate_id\<close>. The set \<^verbatim>\<open>used_ids\<close> is given by the list of the
  ids it was built from. The loop ends because each round leaves one used id fewer at or
  above \<open>new_id\<close>.
\<close>

function next_id :: "int list \<Rightarrow> int \<Rightarrow> int" where
  "next_id used_ids new_id =
     (if new_id \<in> set used_ids then next_id used_ids (new_id + 1) else new_id)"
  by pat_completeness auto
termination
proof (relation "measure (\<lambda>(used_ids, new_id). length (filter (\<lambda>x. new_id \<le> x) used_ids))")
  fix used_ids :: "int list" and new_id :: int
  assume "new_id \<in> set used_ids"
  moreover have "(\<lambda>x. new_id \<le> x \<and> new_id + 1 \<le> x) = (\<lambda>x. new_id + 1 \<le> x)"
    by auto
  ultimately show "((used_ids, new_id + 1), (used_ids, new_id))
      \<in> measure (\<lambda>(used_ids, new_id). length (filter (\<lambda>x. new_id \<le> x) used_ids))"
    using length_filter_less [of new_id "filter (\<lambda>x. new_id \<le> x) used_ids" "\<lambda>x. new_id + 1 \<le> x"]
    by simp
qed simp

text \<open>How often the body of that loop runs: the same loop, counting its rounds.\<close>

function next_id_rounds :: "int list \<Rightarrow> int \<Rightarrow> nat" where
  "next_id_rounds used_ids new_id =
     (if new_id \<in> set used_ids then Suc (next_id_rounds used_ids (new_id + 1)) else 0)"
  by pat_completeness auto
termination
proof (relation "measure (\<lambda>(used_ids, new_id). length (filter (\<lambda>x. new_id \<le> x) used_ids))")
  fix used_ids :: "int list" and new_id :: int
  assume "new_id \<in> set used_ids"
  moreover have "(\<lambda>x. new_id \<le> x \<and> new_id + 1 \<le> x) = (\<lambda>x. new_id + 1 \<le> x)"
    by auto
  ultimately show "((used_ids, new_id + 1), (used_ids, new_id))
      \<in> measure (\<lambda>(used_ids, new_id). length (filter (\<lambda>x. new_id \<le> x) used_ids))"
    using length_filter_less [of new_id "filter (\<lambda>x. new_id \<le> x) used_ids" "\<lambda>x. new_id + 1 \<le> x"]
    by simp
qed simp

definition generate_id :: "json_module \<Rightarrow> data_file \<Rightarrow> error + int" where
  "generate_id J f =
     and_then (load_books J f) (\<lambda>books. Inr (next_id (map book_id books) 1))"

text \<open>
  \<^verbatim>\<open>open(_, "a")\<close> creates the file when it is missing and writes at the end of it
  otherwise.
\<close>

definition append_text :: "data_file \<Rightarrow> pystr \<Rightarrow> data_file" where
  "append_text f s = (case f of None \<Rightarrow> Some s | Some content \<Rightarrow> Some (content @ s))"

definition add_book ::
  "json_module \<Rightarrow> data_file \<Rightarrow> pystr \<Rightarrow> pystr \<Rightarrow> int \<Rightarrow> error + message \<times> data_file" where
  "add_book J f t a y =
     and_then (generate_id J f) (\<lambda>i.
       let new_book = \<lparr>book_id = i, title = t, author = a, year = y, status = status_available\<rparr>
       in Inr (BookAdded t, append_text f (record_line J new_book)))"

definition delete_book ::
  "json_module \<Rightarrow> data_file \<Rightarrow> int \<Rightarrow> error + message \<times> data_file" where
  "delete_book J f i =
     and_then (load_books J f) (\<lambda>books.
       let updated_books = filter (\<lambda>book. book_id book \<noteq> i) books
       in if length books = length updated_books then Inr (DeleteNotFound i, f)
          else Inr (BookDeleted i, save_books J updated_books))"

text \<open>
  The condition of the comprehension in \<^verbatim>\<open>find_books\<close>. Python reads
  \<^verbatim>\<open>A or B or C and D\<close> as \<^verbatim>\<open>A or B or (C and D)\<close> and evaluates from the left, so
  \<^verbatim>\<open>int(keyword)\<close> runs only when neither the title nor the author matches and
  \<^verbatim>\<open>keyword.isdigit()\<close> holds.
\<close>

definition matches :: "pystr \<Rightarrow> Book \<Rightarrow> error + bool" where
  "matches keyword book =
     (if contains (lower (title book)) (lower keyword) then Inr True
      else if contains (lower (author book)) (lower keyword) then Inr True
      else if isdigit keyword then and_then (py_int keyword) (\<lambda>n. Inr (n = year book))
      else Inr False)"

fun found_books :: "pystr \<Rightarrow> Book list \<Rightarrow> error + Book list" where
  "found_books keyword [] = Inr []"
| "found_books keyword (book # books) =
     and_then (matches keyword book) (\<lambda>m.
     and_then (found_books keyword books) (\<lambda>rest.
       Inr (if m then book # rest else rest)))"

definition find_books :: "json_module \<Rightarrow> data_file \<Rightarrow> pystr \<Rightarrow> error + Book list" where
  "find_books J f keyword = and_then (load_books J f) (found_books keyword)"



text \<open>
  The condition of the search as the specification words it: the title or the author
  contains the keyword, both in lower case, or the keyword is numeric and its value is the
  year. It is compared with \<open>matches\<close> below.
\<close>

definition matches_spec :: "pystr \<Rightarrow> Book \<Rightarrow> bool" where
  "matches_spec keyword book =
     (contains (lower (title book)) (lower keyword)
      \<or> contains (lower (author book)) (lower keyword)
      \<or> isdigit keyword \<and> py_int keyword = Inr (year book))"

subsection \<open>What the theorems ask of the \<^verbatim>\<open>json\<close> module\<close>

text \<open>
  A book survives the file when \<^verbatim>\<open>json.loads\<close> gives back the dict that
  \<^verbatim>\<open>json.dumps\<close> wrote, from the line as it is read (with its newline), and the text
  written has no newline inside (\<^verbatim>\<open>json.dumps\<close> escapes it).
\<close>

definition round_trips :: "json_module \<Rightarrow> Book \<Rightarrow> bool" where
  "round_trips J b =
     (loads J (record_line J b) = Some (to_dict b) \<and> 10 \<notin> set (dumps J (to_dict b)))"

text \<open>Every line of the file ends in a newline, as all lines do that the program writes.\<close>

definition newline_terminated :: "data_file \<Rightarrow> bool" where
  "newline_terminated f = (case f of None \<Rightarrow> True | Some content \<Rightarrow> content = [] \<or> last content = 10)"

definition ids :: "Book list \<Rightarrow> int set" where
  "ids books = set (map book_id books)"

subsection \<open>A store for the examples\<close>

text \<open>
  A stand-in for the \<^verbatim>\<open>json\<close> module that knows a finite list of books: it writes
  the dict of each as the text listed with it and reads that text back.
\<close>

definition table_json :: "(pystr \<times> Book) list \<Rightarrow> json_module" where
  "table_json docs =
     \<lparr>loads = (\<lambda>s. map_option (to_dict \<circ> snd) (find (\<lambda>(t, b). t @ [10] = s) docs)),
      dumps = (\<lambda>d. case find (\<lambda>(t, b). to_dict b = d) docs of Some (t, b) \<Rightarrow> t | None \<Rightarrow> [])\<rparr>"

definition dune :: Book where
  "dune = \<lparr>book_id = 1, title = ascii ''Dune'', author = ascii ''Herbert'', year = 1965,
            status = status_available\<rparr>"

definition nineteen84 :: Book where
  "nineteen84 = \<lparr>book_id = 2, title = ascii ''1984'', author = ascii ''Orwell'', year = 1949,
            status = status_loaned\<rparr>"

definition dune_text :: pystr where
  \<open>dune_text = ascii ''{"id": 1, "title": "Dune", "author": "Herbert", "year": 1965, "status": "''
     @ status_available @ ascii ''"}''\<close>

definition nineteen84_text :: pystr where
  \<open>nineteen84_text = ascii ''{"id": 2, "title": "1984", "author": "Orwell", "year": 1949, "status": "''
     @ status_loaned @ ascii ''"}''\<close>

definition emma :: Book where
  "emma = \<lparr>book_id = 3, title = ascii ''Emma'', author = ascii ''Austen'', year = 1815,
            status = status_available\<rparr>"

definition emma_text :: pystr where
  \<open>emma_text = ascii ''{"id": 3, "title": "Emma", "author": "Austen", "year": 1815, "status": "''
     @ status_available @ ascii ''"}''\<close>

definition dune_loaned_text :: pystr where
  \<open>dune_loaned_text = ascii ''{"id": 1, "title": "Dune", "author": "Herbert", "year": 1965, "status": "''
     @ status_loaned @ ascii ''"}''\<close>

definition demo_json :: json_module where
  "demo_json = table_json
     [(dune_text, dune), (nineteen84_text, nineteen84), (emma_text, emma),
      (dune_loaned_text, dune\<lparr>status := status_loaned\<rparr>)]"

definition party :: Book where
  "party = \<lparr>book_id = 4, title = ascii ''Party like 1999'', author = ascii ''Prince'',
             year = 1982, status = status_available\<rparr>"

definition party_text :: pystr where
  \<open>party_text = ascii ''{"id": 4, "title": "Party like 1999", "author": "Prince", "year": 1982, "status": "''
     @ status_available @ ascii ''"}''\<close>

definition matrix :: Book where
  "matrix = \<lparr>book_id = 5, title = ascii ''The Matrix'', author = ascii ''Wachowski'',
              year = 1999, status = status_available\<rparr>"

definition matrix_text :: pystr where
  \<open>matrix_text = ascii ''{"id": 5, "title": "The Matrix", "author": "Wachowski", "year": 1999, "status": "''
     @ status_available @ ascii ''"}''\<close>

definition demo_file :: data_file where
  "demo_file = Some (dune_text @ [10] @ nineteen84_text @ [10])"

section \<open>Auxiliary facts\<close>

declare next_id.simps [simp del] next_id_rounds.simps [simp del] digits_of.simps [simp del]

lemma and_then_simps [simp]:
  "and_then (Inl e) f = Inl e" "and_then (Inr v) f = f v"
  by (simp_all add: and_then_def)

lemma and_then_eq_Inr:
  "and_then r f = Inr y \<longleftrightarrow> (\<exists>v. r = Inr v \<and> f v = Inr y)"
  by (cases r) simp_all

subsection \<open>The id loop\<close>

lemma next_id_unused: "next_id used n \<notin> set used"
  by (induction used n rule: next_id.induct) (subst next_id.simps, simp)

lemma next_id_ge: "n \<le> next_id used n"
  by (induction used n rule: next_id.induct) (subst next_id.simps, auto)

lemma next_id_below_used: "n \<le> j \<Longrightarrow> j < next_id used n \<Longrightarrow> j \<in> set used"
proof (induction used n rule: next_id.induct)
  case (1 used n)
  show ?case
  proof (cases "n \<in> set used")
    case True
    with "1.prems" have "j < next_id used (n + 1)"
      by (subst (asm) next_id.simps) simp
    with True "1.IH" "1.prems"(1) show ?thesis
      by (cases "j = n") auto
  next
    case False
    with "1.prems" show ?thesis
      by (subst (asm) next_id.simps) simp
  qed
qed

lemma next_id_rounds_eq: "next_id used n = n + int (next_id_rounds used n)"
  by (induction used n rule: next_id.induct)
     (subst next_id.simps, subst next_id_rounds.simps, simp)

lemma next_id_rounds_le: "next_id_rounds used n \<le> length (filter (\<lambda>x. n \<le> x) used)"
proof (induction used n rule: next_id.induct)
  case (1 used n)
  show ?case
  proof (cases "n \<in> set used")
    case True
    have "(\<lambda>x. n \<le> x \<and> n + 1 \<le> x) = (\<lambda>x. n + 1 \<le> x)"
      by auto
    with True have "length (filter (\<lambda>x. n + 1 \<le> x) used) < length (filter (\<lambda>x. n \<le> x) used)"
      using length_filter_less [of n "filter (\<lambda>x. n \<le> x) used" "\<lambda>x. n + 1 \<le> x"] by simp
    with True "1.IH" show ?thesis
      by (subst next_id_rounds.simps) simp
  next
    case False
    then show ?thesis
      by (subst next_id_rounds.simps) simp
  qed
qed

lemma next_id_rounds_le_length: "next_id_rounds used n \<le> length used"
  by (rule order_trans [OF next_id_rounds_le length_filter_le])

subsection \<open>Reading back what was written\<close>

lemma from_dict_to_dict: "from_dict (to_dict b) = Inr b"
  by (simp add: from_dict_def to_dict_def ascii_def)

lemma file_lines_newline_free:
  "10 \<notin> set l \<Longrightarrow> file_lines (l @ 10 # rest) = (l @ [10]) # file_lines rest"
  by (induction l) auto

lemma file_lines_append:
  "cs = [] \<or> last cs = 10 \<Longrightarrow> file_lines (cs @ rest) = file_lines cs @ file_lines rest"
proof (induction cs)
  case Nil
  then show ?case by simp
next
  case (Cons c cs)
  show ?case
  proof (cases "cs = []")
    case True
    with Cons.prems show ?thesis by simp
  next
    case False
    with Cons have IH: "file_lines (cs @ rest) = file_lines cs @ file_lines rest"
      by simp
    from False have "file_lines cs \<noteq> []"
      by (cases cs) (auto split: list.splits)
    with IH show ?thesis
      by (auto split: list.splits)
  qed
qed

lemma file_lines_save:
  "(\<forall>b \<in> set books. round_trips J b) \<Longrightarrow>
     file_lines (concat (map (record_line J) books)) = map (record_line J) books"
  by (induction books) (simp_all add: record_line_def round_trips_def file_lines_newline_free)

lemma parse_record_line: "round_trips J b \<Longrightarrow> parse_line J (record_line J b) = Inr b"
  by (simp add: parse_line_def round_trips_def from_dict_to_dict)

lemma load_lines_record_lines:
  "(\<forall>b \<in> set books. round_trips J b) \<Longrightarrow> load_lines J (map (record_line J) books) = Inr books"
  by (induction books) (simp_all add: parse_record_line)

lemma load_save:
  "(\<forall>b \<in> set books. round_trips J b) \<Longrightarrow> load_books J (save_books J books) = Inr books"
  by (simp add: load_books_def save_books_def file_lines_save load_lines_record_lines)

lemma load_lines_append:
  "load_lines J (xs @ ys) =
     and_then (load_lines J xs) (\<lambda>as. and_then (load_lines J ys) (\<lambda>bs. Inr (as @ bs)))"
proof (induction xs)
  case Nil
  show ?case by (cases "load_lines J ys") simp_all
next
  case (Cons x xs)
  show ?case
  proof (cases "parse_line J x")
    case (Inl e)
    then show ?thesis by simp
  next
    case (Inr b)
    show ?thesis
    proof (cases "load_lines J xs")
      case (Inl e)
      with Inr Cons show ?thesis by simp
    next
      case xs: (Inr as)
      show ?thesis
      proof (cases "load_lines J ys")
        case (Inl e)
        with Inr xs Cons show ?thesis by simp
      next
        case ys: (Inr bs)
        with Inr xs Cons show ?thesis by simp
      qed
    qed
  qed
qed

lemma file_lines_record_line:
  "round_trips J b \<Longrightarrow> file_lines (record_line J b) = [record_line J b]"
  using file_lines_newline_free [of "dumps J (to_dict b)" "[]"]
  by (simp add: record_line_def round_trips_def)

lemma load_append:
  assumes "newline_terminated f" "load_books J f = Inr books" "round_trips J b"
  shows "load_books J (append_text f (record_line J b)) = Inr (books @ [b])"
proof (cases f)
  case None
  with assms show ?thesis
    by (simp add: load_books_def append_text_def file_lines_record_line parse_record_line)
next
  case (Some cs)
  with assms have "cs = [] \<or> last cs = 10" "load_lines J (file_lines cs) = Inr books"
    by (simp_all add: newline_terminated_def load_books_def)
  with assms(3) Some show ?thesis
    by (simp add: load_books_def append_text_def file_lines_append load_lines_append
        file_lines_record_line parse_record_line)
qed

lemma newline_terminated_save: "newline_terminated (save_books J books)"
  by (induction books rule: rev_induct)
     (simp_all add: newline_terminated_def save_books_def record_line_def)

lemma newline_terminated_append: "newline_terminated (append_text f (record_line J b))"
  by (cases f) (simp_all add: newline_terminated_def append_text_def record_line_def)



lemma generate_id_eq:
  "load_books J f = Inr books \<Longrightarrow> generate_id J f = Inr (next_id (map book_id books) 1)"
  by (simp add: generate_id_def)

lemma length_filter_eq_iff:
  "length xs = length (filter P xs) \<longleftrightarrow> (\<forall>x \<in> set xs. P x)"
proof (induction xs)
  case Nil
  show ?case by simp
next
  case (Cons x xs)
  show ?case
  proof (cases "P x")
    case True
    with Cons show ?thesis by simp
  next
    case False
    have "length (filter P xs) < Suc (length xs)"
      by (rule le_imp_less_Suc [OF length_filter_le])
    with False show ?thesis by simp
  qed
qed

subsection \<open>Deleting and changing the status\<close>

lemma delete_book_eq:
  assumes "load_books J f = Inr books"
  shows "delete_book J f i =
     (if i \<in> ids books
      then Inr (BookDeleted i, save_books J (filter (\<lambda>b. book_id b \<noteq> i) books))
      else Inr (DeleteNotFound i, f))"
proof -
  have "length books = length (filter (\<lambda>b. book_id b \<noteq> i) books) \<longleftrightarrow> i \<notin> ids books"
    unfolding length_filter_eq_iff by (auto simp: ids_def)
  with assms show ?thesis
    by (simp add: delete_book_def Let_def)
qed

lemma filter_all_differ: "i \<notin> ids books \<Longrightarrow> filter (\<lambda>b. book_id b \<noteq> i) books = books"
  by (induction books) (simp_all add: ids_def)








subsection \<open>Searching\<close>

lemma startswith_iff: "startswith hay needle \<longleftrightarrow> (\<exists>s. hay = needle @ s)"
  by (induction hay needle rule: startswith.induct) auto

lemma contains_iff: "contains hay needle \<longleftrightarrow> (\<exists>p s. hay = p @ needle @ s)"
proof (induction hay)
  case Nil
  show ?case by (simp add: startswith_iff)
next
  case (Cons h hs)
  show ?case
  proof
    assume "contains (h # hs) needle"
    then consider "startswith (h # hs) needle" | "contains hs needle" by auto
    then show "\<exists>p s. h # hs = p @ needle @ s"
    proof cases
      case 1
      then obtain s where "h # hs = [] @ needle @ s" by (auto simp: startswith_iff)
      then show ?thesis by blast
    next
      case 2
      with Cons obtain p s where "hs = p @ needle @ s" by blast
      then have "h # hs = (h # p) @ needle @ s" by simp
      then show ?thesis by blast
    qed
  next
    assume "\<exists>p s. h # hs = p @ needle @ s"
    then obtain p s where ps: "h # hs = p @ needle @ s" by blast
    show "contains (h # hs) needle"
    proof (cases p)
      case Nil
      with ps have "startswith (h # hs) needle" by (auto simp: startswith_iff)
      then show ?thesis by simp
    next
      case (Cons x xs)
      with ps have "hs = xs @ needle @ s" by simp
      with Cons.IH have "contains hs needle" by blast
      then show ?thesis by simp
    qed
  qed
qed

lemma matches_Inr: "matches k b = Inr m \<Longrightarrow> m = matches_spec k b"
  by (auto simp: matches_def matches_spec_def py_int_def split: if_splits)

lemma matches_Inl:
  "matches k b = Inl e \<longleftrightarrow>
     e = ValueError \<and> isdigit k \<and> \<not> list_all is_decimal_cp k
     \<and> \<not> contains (lower (title b)) (lower k) \<and> \<not> contains (lower (author b)) (lower k)"
  by (auto simp: matches_def py_int_def isdigit_def split: if_splits)

lemma found_books_Inr:
  "found_books k books = Inr found \<Longrightarrow> found = filter (matches_spec k) books"
proof (induction books arbitrary: found)
  case Nil
  then show ?case by simp
next
  case (Cons b bs)
  from Cons.prems obtain m rest where
    m: "matches k b = Inr m" and rest: "found_books k bs = Inr rest"
    and found: "found = (if m then b # rest else rest)"
    by (auto simp: and_then_eq_Inr)
  from m have "m = matches_spec k b" by (rule matches_Inr)
  with Cons.IH [OF rest] found show ?case by simp
qed

lemma found_books_Inl:
  "found_books k books = Inl e \<Longrightarrow>
     e = ValueError \<and> isdigit k \<and> \<not> list_all is_decimal_cp k"
proof (induction books)
  case Nil
  then show ?case by simp
next
  case (Cons b bs)
  show ?case
  proof (cases "matches k b")
    case (Inl e')
    with Cons.prems have "e' = e" by simp
    with Inl show ?thesis by (simp add: matches_Inl)
  next
    case (Inr m)
    with Cons.prems have "found_books k bs = Inl e"
      by (cases "found_books k bs") simp_all
    with Cons.IH show ?thesis by simp
  qed
qed

lemma found_books_decimal:
  assumes "isdigit k \<longrightarrow> list_all is_decimal_cp k"
  shows "found_books k books = Inr (filter (matches_spec k) books)"
proof (cases "found_books k books")
  case (Inl e)
  with assms show ?thesis using found_books_Inl [of k books e] by simp
next
  case (Inr found)
  then show ?thesis using found_books_Inr by simp
qed

lemma find_books_eq:
  "load_books J f = Inr books \<Longrightarrow> find_books J f k = found_books k books"
  by (simp add: find_books_def)

lemma find_books_decimal:
  assumes "load_books J f = Inr books"
    and "isdigit k \<longrightarrow> list_all is_decimal_cp k"
  shows "find_books J f k = Inr (filter (matches_spec k) books)"
  using assms by (simp add: find_books_eq found_books_decimal)

lemma lower_1999: "lower (ascii ''1999'') = ascii ''1999''"
  by (simp add: lower_def lower_cp_def ascii_def)

lemma py_int_1999: "isdigit (ascii ''1999'')" "py_int (ascii ''1999'') = Inr 1999"
  by (simp_all add: isdigit_def is_digit_cp_def is_decimal_cp_def py_int_def decimal_value_def
      ascii_def)

lemma found_books_subseq: "found_books k books = Inr found \<Longrightarrow> subseq found books"
  using found_books_Inr [of k books found] by simp

subsection \<open>The example store\<close>

lemma demo_load:
  "load_books demo_json demo_file
     = Inr [dune, nineteen84]"
  by (simp add: load_books_def demo_file_def demo_json_def table_json_def parse_line_def
      dune_text_def nineteen84_text_def ascii_def status_available_def status_loaned_def
      dune_def nineteen84_def to_dict_def from_dict_def)

lemma demo_round_trips:
  "round_trips demo_json dune" "round_trips demo_json nineteen84" "round_trips demo_json emma"
  "round_trips demo_json (dune\<lparr>status := status_loaned\<rparr>)"
  by (simp_all add: round_trips_def record_line_def demo_json_def table_json_def
      dune_text_def nineteen84_text_def emma_text_def dune_loaned_text_def ascii_def
      status_available_def status_loaned_def dune_def nineteen84_def emma_def to_dict_def)

lemma demo_newline_terminated: "newline_terminated demo_file"
  by (simp add: newline_terminated_def demo_file_def)

lemma demo_all_round_trip: "\<forall>b \<in> set [dune, nineteen84]. round_trips demo_json b"
  by (simp add: demo_round_trips)

lemma party_load:
  "load_books (table_json [(party_text, party)]) (Some (party_text @ [10])) = Inr [party]"
  by (simp add: load_books_def table_json_def parse_line_def
      party_text_def ascii_def status_available_def party_def to_dict_def from_dict_def)

lemma search_load:
  "load_books (table_json [(party_text, party), (matrix_text, matrix), (dune_text, dune)])
     (Some (party_text @ [10] @ matrix_text @ [10] @ dune_text @ [10])) = Inr [party, matrix, dune]"
  by (simp add: load_books_def table_json_def parse_line_def
      party_text_def matrix_text_def dune_text_def ascii_def status_available_def
      party_def matrix_def dune_def to_dict_def from_dict_def)

lemma py_str_1: "py_str 1 = ascii ''1''"
  by (simp add: py_str_def digits_of.simps ascii_def)

section \<open>The claims\<close>

text \<open>
  C1. When the file loads, \<^verbatim>\<open>_generate_id\<close> returns the smallest positive integer that
  is not the id of a record in the store, and \<^verbatim>\<open>add_book\<close> appends the line of a record
  with exactly that id (and the given title, author and year, available). When the file
  ends in a newline and the new record survives the \<^verbatim>\<open>json\<close> module, the store read
  back is the old one followed by that record.
\<close>

theorem add_book_smallest_unused_id:
  assumes "load_books J f = Inr books"
  shows "\<exists>i. generate_id J f = Inr i
           \<and> 0 < i \<and> i \<notin> ids books \<and> (\<forall>j. 0 < j \<and> j < i \<longrightarrow> j \<in> ids books)
           \<and> add_book J f t a y
               = Inr (BookAdded t, append_text f (record_line J
                   \<lparr>book_id = i, title = t, author = a, year = y, status = status_available\<rparr>))
           \<and> (newline_terminated f
                \<and> round_trips J
                   \<lparr>book_id = i, title = t, author = a, year = y, status = status_available\<rparr>
              \<longrightarrow> load_books J (append_text f (record_line J
                     \<lparr>book_id = i, title = t, author = a, year = y, status = status_available\<rparr>))
                   = Inr (books @
                     [\<lparr>book_id = i, title = t, author = a, year = y, status = status_available\<rparr>]))"
proof -
  let ?i = "next_id (map book_id books) 1"
  have g: "generate_id J f = Inr ?i"
    using assms by (rule generate_id_eq)
  have pos: "0 < ?i"
    using next_id_ge [of 1 "map book_id books"] by simp
  have unused: "?i \<notin> ids books"
    using next_id_unused [of "map book_id books" 1] by (simp add: ids_def)
  have least: "\<forall>j. 0 < j \<and> j < ?i \<longrightarrow> j \<in> ids books"
  proof (intro allI impI)
    fix j
    assume "0 < j \<and> j < ?i"
    then have "1 \<le> j" "j < ?i"
      by simp_all
    then have "j \<in> set (map book_id books)"
      by (rule next_id_below_used)
    then show "j \<in> ids books"
      by (simp add: ids_def)
  qed
  have add: "add_book J f t a y
      = Inr (BookAdded t, append_text f (record_line J
          \<lparr>book_id = ?i, title = t, author = a, year = y, status = status_available\<rparr>))"
    by (simp add: add_book_def g)
  have ld: "newline_terminated f \<and> round_trips J
          \<lparr>book_id = ?i, title = t, author = a, year = y, status = status_available\<rparr>
      \<longrightarrow> load_books J (append_text f (record_line J
          \<lparr>book_id = ?i, title = t, author = a, year = y, status = status_available\<rparr>))
        = Inr (books @ [\<lparr>book_id = ?i, title = t, author = a, year = y, status = status_available\<rparr>])"
  proof
    assume "newline_terminated f \<and> round_trips J
          \<lparr>book_id = ?i, title = t, author = a, year = y, status = status_available\<rparr>"
    then show "load_books J (append_text f (record_line J
          \<lparr>book_id = ?i, title = t, author = a, year = y, status = status_available\<rparr>))
        = Inr (books @ [\<lparr>book_id = ?i, title = t, author = a, year = y, status = status_available\<rparr>])"
      using assms by (intro load_append) simp_all
  qed
  show ?thesis
    by (rule exI [of _ ?i]) (intro conjI g pos unused least add ld)
qed

theorem add_book_smallest_unused_id_witness:
  "load_books demo_json demo_file = Inr [dune, nineteen84]
   \<and> generate_id demo_json demo_file = Inr 3
   \<and> add_book demo_json demo_file (ascii ''Emma'') (ascii ''Austen'') 1815
       = Inr (BookAdded (ascii ''Emma''), append_text demo_file (record_line demo_json emma))
   \<and> load_books demo_json (append_text demo_file (record_line demo_json emma))
       = Inr [dune, nineteen84, emma]"
proof -
  from add_book_smallest_unused_id [OF demo_load, of "ascii ''Emma''" "ascii ''Austen''" 1815]
  obtain i where g: "generate_id demo_json demo_file = Inr i"
    and pos: "0 < i" and unused: "i \<notin> ids [dune, nineteen84]"
    and least: "\<forall>j. 0 < j \<and> j < i \<longrightarrow> j \<in> ids [dune, nineteen84]"
    and add: "add_book demo_json demo_file (ascii ''Emma'') (ascii ''Austen'') 1815
      = Inr (BookAdded (ascii ''Emma''), append_text demo_file (record_line demo_json
          \<lparr>book_id = i, title = ascii ''Emma'', author = ascii ''Austen'', year = 1815,
            status = status_available\<rparr>))"
    and load: "newline_terminated demo_file \<and> round_trips demo_json
          \<lparr>book_id = i, title = ascii ''Emma'', author = ascii ''Austen'', year = 1815,
            status = status_available\<rparr>
        \<longrightarrow> load_books demo_json (append_text demo_file (record_line demo_json
          \<lparr>book_id = i, title = ascii ''Emma'', author = ascii ''Austen'', year = 1815,
            status = status_available\<rparr>))
          = Inr ([dune, nineteen84] @ [\<lparr>book_id = i, title = ascii ''Emma'',
              author = ascii ''Austen'', year = 1815, status = status_available\<rparr>])"
    by (elim exE conjE)
  have "3 \<notin> ids [dune, nineteen84]"
    by (simp add: ids_def dune_def nineteen84_def)
  with least have "\<not> 3 < i"
    by auto
  moreover from unused have "i \<noteq> 1" "i \<noteq> 2"
    by (auto simp: ids_def dune_def nineteen84_def)
  ultimately have i: "i = 3"
    using pos by simp
  then have e: "\<lparr>book_id = i, title = ascii ''Emma'', author = ascii ''Austen'', year = 1815,
      status = status_available\<rparr> = emma"
    by (simp add: emma_def)
  from load have "load_books demo_json (append_text demo_file (record_line demo_json emma))
       = Inr [dune, nineteen84, emma]"
    unfolding e using demo_newline_terminated demo_round_trips(3) by simp
  moreover from add have "add_book demo_json demo_file (ascii ''Emma'') (ascii ''Austen'') 1815
       = Inr (BookAdded (ascii ''Emma''), append_text demo_file (record_line demo_json emma))"
    unfolding e .
  ultimately show ?thesis
    using g i demo_load by simp
qed

text \<open>
  C2. \<^verbatim>\<open>find_books\<close> is to return, for every keyword, the records that match it. For
  the keyword made of the superscript two (U+00B2), \<^verbatim>\<open>keyword.isdigit()\<close> holds and
  \<^verbatim>\<open>int(keyword)\<close> raises \<^verbatim>\<open>ValueError\<close>: on a store where some record has the
  keyword neither in its title nor in its author, the search raises instead of returning the
  records that match (here none).
\<close>

theorem find_books_superscript_raises:
  "isdigit [178]
   \<and> find_books demo_json demo_file [178] = Inl ValueError
   \<and> filter (matches_spec [178]) [dune, nineteen84] = []"
  by (simp add: find_books_eq [OF demo_load] matches_def matches_spec_def isdigit_def
      is_digit_cp_def is_decimal_cp_def py_int_def lower_def lower_cp_def dune_def nineteen84_def
      ascii_def)











text \<open>
  C8. As stated the claim fails: \<^verbatim>\<open>find_books("1999")\<close> returns a record of the year
  1982 whose title contains \<^verbatim>\<open>1999\<close>.
\<close>

theorem find_books_1999_counterexample:
  "find_books (table_json [(party_text, party)]) (Some (party_text @ [10])) (ascii ''1999'')
     = Inr [party]
   \<and> year party = 1982"
  by (simp add: find_books_eq [OF party_load] matches_def lower_1999)
     (simp add: party_def lower_def lower_cp_def ascii_def)

text \<open>
  C8, amended. On a file that loads, \<^verbatim>\<open>find_books("1999")\<close> returns, in the order of the
  store, exactly the records whose year is 1999 or whose title or author contains
  \<^verbatim>\<open>1999\<close>.
\<close>

theorem find_books_1999:
  assumes "load_books J f = Inr books"
  shows "find_books J f (ascii ''1999'')
     = Inr (filter (\<lambda>b. year b = 1999
                       \<or> contains (lower (title b)) (ascii ''1999'')
                       \<or> contains (lower (author b)) (ascii ''1999'')) books)"
proof -
  have "isdigit (ascii ''1999'') \<longrightarrow> list_all is_decimal_cp (ascii ''1999'')"
    by (simp add: is_decimal_cp_def ascii_def)
  then have "found_books (ascii ''1999'') books = Inr (filter (matches_spec (ascii ''1999'')) books)"
    by (rule found_books_decimal)
  moreover have "matches_spec (ascii ''1999'') = (\<lambda>b. year b = 1999
      \<or> contains (lower (title b)) (ascii ''1999'') \<or> contains (lower (author b)) (ascii ''1999''))"
    by (auto simp: matches_spec_def lower_1999 py_int_1999 fun_eq_iff)
  ultimately show ?thesis
    using assms by (simp add: find_books_eq)
qed

theorem find_books_1999_witness:
  "load_books (table_json [(party_text, party), (matrix_text, matrix), (dune_text, dune)])
     (Some (party_text @ [10] @ matrix_text @ [10] @ dune_text @ [10])) = Inr [party, matrix, dune]
   \<and> find_books (table_json [(party_text, party), (matrix_text, matrix), (dune_text, dune)])
       (Some (party_text @ [10] @ matrix_text @ [10] @ dune_text @ [10])) (ascii ''1999'')
     = Inr [party, matrix]"
proof -
  have "filter (\<lambda>b. year b = 1999 \<or> contains (lower (title b)) (ascii ''1999'')
      \<or> contains (lower (author b)) (ascii ''1999'')) [party, matrix, dune] = [party, matrix]"
    by (simp add: party_def matrix_def dune_def lower_def lower_cp_def ascii_def)
  with find_books_1999 [OF search_load] search_load show ?thesis
    by simp
qed

text \<open>
  C9. As stated the claim fails: after \<^verbatim>\<open>delete_book(1)\<close> the search for \<^verbatim>\<open>"1"\<close>
  returns the record with the title \<^verbatim>\<open>1984\<close>. The search looks at title, author and
  year, never at the id.
\<close>

theorem delete_then_find_counterexample:
  "delete_book demo_json demo_file 1 = Inr (BookDeleted 1, save_books demo_json [nineteen84])
   \<and> find_books demo_json (save_books demo_json [nineteen84]) (py_str 1) = Inr [nineteen84]"
proof -
  have "(1::int) \<in> ids [dune, nineteen84]"
    by (simp add: ids_def dune_def)
  moreover have "filter (\<lambda>b. book_id b \<noteq> 1) [dune, nineteen84] = [nineteen84]"
    by (simp add: dune_def nineteen84_def)
  ultimately have d: "delete_book demo_json demo_file 1
      = Inr (BookDeleted 1, save_books demo_json [nineteen84])"
    by (simp add: delete_book_eq [OF demo_load])
  have "load_books demo_json (save_books demo_json [nineteen84]) = Inr [nineteen84]"
    by (rule load_save) (simp add: demo_round_trips)
  then have "find_books demo_json (save_books demo_json [nineteen84]) (py_str 1)
      = found_books (ascii ''1'') [nineteen84]"
    by (simp add: find_books_eq py_str_1)
  also have "\<dots> = Inr [nineteen84]"
    by (simp add: matches_def nineteen84_def lower_def lower_cp_def ascii_def)
  finally show ?thesis
    using d by simp
qed

text \<open>
  C9, amended. On a file that loads, after \<^verbatim>\<open>delete_book(id)\<close> a search for any keyword
  runs over the records whose id differs from \<open>id\<close>, so no record that it returns has
  that id.
\<close>

theorem delete_then_find:
  assumes "load_books J f = Inr books"
    and "\<forall>b \<in> set books. round_trips J b"
  shows "\<exists>m f'. delete_book J f i = Inr (m, f')
           \<and> (\<forall>k. find_books J f' k = found_books k (filter (\<lambda>b. book_id b \<noteq> i) books))
           \<and> (\<forall>k found. find_books J f' k = Inr found \<longrightarrow> i \<notin> ids found)"
proof -
  let ?rest = "filter (\<lambda>b. book_id b \<noteq> i) books"
  obtain m f' where d: "delete_book J f i = Inr (m, f')" and l: "load_books J f' = Inr ?rest"
  proof (cases "i \<in> ids books")
    case True
    from assms(2) have "load_books J (save_books J ?rest) = Inr ?rest"
      by (intro load_save) simp
    with True that show ?thesis
      by (simp add: delete_book_eq [OF assms(1)])
  next
    case False
    with assms(1) that show ?thesis
      by (simp add: delete_book_eq [OF assms(1)] filter_all_differ)
  qed
  have "i \<notin> ids found" if "find_books J f' k = Inr found" for k found
  proof -
    from that l have "found_books k ?rest = Inr found"
      by (simp add: find_books_eq)
    then have "found = filter (matches_spec k) ?rest"
      by (rule found_books_Inr)
    then show ?thesis
      by (auto simp: ids_def)
  qed
  with d l show ?thesis
    by (auto simp: find_books_eq)
qed

theorem delete_then_find_witness:
  "delete_book demo_json demo_file 2 = Inr (BookDeleted 2, save_books demo_json [dune])
   \<and> find_books demo_json (save_books demo_json [dune]) (py_str 2) = Inr []
   \<and> find_books demo_json (save_books demo_json [dune]) (ascii ''dune'') = Inr [dune]
   \<and> 2 \<notin> ids [dune]"
proof -
  from delete_then_find [OF demo_load demo_all_round_trip, of 2]
  obtain m f' where d: "delete_book demo_json demo_file 2 = Inr (m, f')"
    and f: "\<And>k. find_books demo_json f' k
        = found_books k (filter (\<lambda>b. book_id b \<noteq> 2) [dune, nineteen84])"
    by blast
  have r: "filter (\<lambda>b. book_id b \<noteq> 2) [dune, nineteen84] = [dune]"
    by (simp add: dune_def nineteen84_def)
  have "(2::int) \<in> ids [dune, nineteen84]"
    by (simp add: ids_def nineteen84_def)
  with r have "delete_book demo_json demo_file 2 = Inr (BookDeleted 2, save_books demo_json [dune])"
    by (simp add: delete_book_eq [OF demo_load])
  with d have "f' = save_books demo_json [dune]"
    by simp
  with f r have f': "\<And>k. find_books demo_json (save_books demo_json [dune]) k = found_books k [dune]"
    by simp
  have "py_str 2 = ascii ''2''"
    by (simp add: py_str_def digits_of.simps ascii_def)
  then have "find_books demo_json (save_books demo_json [dune]) (py_str 2) = Inr []"
    unfolding f'
    by (simp add: matches_def dune_def lower_def lower_cp_def ascii_def isdigit_def
        is_digit_cp_def is_decimal_cp_def py_int_def decimal_value_def)
  moreover have "find_books demo_json (save_books demo_json [dune]) (ascii ''dune'') = Inr [dune]"
    unfolding f' by (simp add: matches_def dune_def lower_def lower_cp_def ascii_def)
  moreover have "(2::int) \<notin> ids [dune]"
    by (simp add: ids_def dune_def)
  ultimately show ?thesis
    using \<open>delete_book demo_json demo_file 2 = Inr (BookDeleted 2, save_books demo_json [dune])\<close>
    by simp
qed

text \<open>
  C10. \<^verbatim>\<open>_generate_id\<close> terminates on every store. When the file loads, with \<open>n\<close>
  records, the body of its loop runs at most \<open>n\<close> times (the condition is tested at most
  \<open>n + 1\<close> times), the result is one more than the number of rounds, and it is a positive
  integer not above \<open>n + 1\<close>. \<open>next_id\<close> is a total function: its definition comes
  with the proof that the loop ends.
\<close>

theorem generate_id_bounded:
  assumes "load_books J f = Inr books"
  shows "\<exists>i. generate_id J f = Inr i
           \<and> i = 1 + int (next_id_rounds (map book_id books) 1)
           \<and> next_id_rounds (map book_id books) 1 \<le> length books
           \<and> 1 \<le> i \<and> i \<le> int (length books) + 1"
proof -
  let ?r = "next_id_rounds (map book_id books) 1"
  have "generate_id J f = Inr (next_id (map book_id books) 1)"
    using assms by (simp add: generate_id_def)
  moreover have "next_id (map book_id books) 1 = 1 + int ?r"
    by (rule next_id_rounds_eq)
  moreover have "?r \<le> length books"
    using next_id_rounds_le_length [of "map book_id books" 1] by simp
  ultimately show ?thesis
    by simp
qed

theorem generate_id_bounded_witness:
  "load_books demo_json demo_file
     = Inr [dune, nineteen84]
   \<and> generate_id demo_json demo_file = Inr 3"
proof -
  let ?J = demo_json
  have l: "load_books ?J demo_file = Inr [dune, nineteen84]"
    by (rule demo_load)
  from generate_id_bounded [OF l] obtain i where
    g: "generate_id ?J demo_file = Inr i" and "i \<le> int (length [dune, nineteen84]) + 1"
    by blast
  moreover have "i \<notin> {1, 2}"
    using g l next_id_unused [of "map book_id [dune, nineteen84]" 1]
    by (simp add: generate_id_def dune_def nineteen84_def)
  moreover have "1 \<le> i"
    using g l next_id_ge [of 1 "map book_id [dune, nineteen84]"]
    by (simp add: generate_id_def)
  ultimately have "i = 3"
    by simp
  with g l show ?thesis
    by simp
qed

end
